theory Spec2Isabelle
  imports Main
begin

section \<open>JavaScript values\<close>

text \<open>
  A JavaScript number as far as the modelled code can tell numbers apart. The code
  never does arithmetic on a number: it tests \<open>isNaN\<close>, compares with \<open>0\<close> and hands the
  value on. \<open>NaN\<close> is kept apart; every other number that occurs (a status code, an
  error id, the result of \<open>parseInt\<close>) is integral and is represented by that integer.
  For a digit string beyond \<open>2^53\<close> the JavaScript value is the nearest double (or
  \<open>Infinity\<close>), which has the sign of the exact integer kept here.
\<close>

datatype number = NaN | Num int

fun isNaN :: "number \<Rightarrow> bool" where
  "isNaN NaN = True"
| "isNaN (Num n) = False"

text \<open>The comparisons \<open>a > b\<close> and \<open>a <= b\<close>: both are false when an operand is \<open>NaN\<close>.\<close>

fun gt :: "number \<Rightarrow> number \<Rightarrow> bool" where
  "gt (Num a) (Num b) = (a > b)"
| "gt _ _ = False"

fun le :: "number \<Rightarrow> number \<Rightarrow> bool" where
  "le (Num a) (Num b) = (a \<le> b)"
| "le _ _ = False"

text \<open>
  Values of type \<open>any\<close>: what \<open>JSON.stringify\<close> can serialize. An object literal is the
  list of its properties in insertion order.
\<close>

datatype jsvalue =
    JUndefined
  | JNull
  | JBool bool
  | JNum number
  | JStr string
  | JObj "(string \<times> jsvalue) list"

text \<open>The truthiness test of \<open>if (value)\<close>.\<close>

fun truthy :: "jsvalue \<Rightarrow> bool" where
  "truthy JUndefined = False"
| "truthy JNull = False"
| "truthy (JBool b) = b"
| "truthy (JNum NaN) = False"
| "truthy (JNum (Num n)) = (n \<noteq> 0)"
| "truthy (JStr s) = (s \<noteq> [])"
| "truthy (JObj kvs) = True"

section \<open>ClientError (framework/errors/clientError.ts)\<close>

text \<open>
  The fields of the class; \<open>message\<close> is the one inherited from \<open>Error\<close>, and \<open>id'\<close> is the
  field \<open>_id\<close>.
\<close>

record ClientError =
  message :: string
  statusCode :: number
  errorCode :: string
  logContext :: jsvalue
  area :: string
  id' :: number
  utcTime :: string

text \<open>The constructor.\<close>

definition new_ClientError :: "number \<Rightarrow> string \<Rightarrow> string \<Rightarrow> ClientError" where
  "new_ClientError sc ec msg =
     \<lparr> message = msg, statusCode = sc, errorCode = ec, logContext = JNull,
       area = [], id' = Num 0, utcTime = [] \<rparr>"

definition getStatusCode :: "ClientError \<Rightarrow> number" where
  "getStatusCode this = statusCode this"

text \<open>The setter \<open>set LogContext(value)\<close>.\<close>

definition set_LogContext :: "jsvalue \<Rightarrow> ClientError \<Rightarrow> ClientError" where
  "set_LogContext v this = this\<lparr> logContext := v \<rparr>"

definition setExceptionDetails :: "string \<Rightarrow> number \<Rightarrow> string \<Rightarrow> ClientError \<Rightarrow> ClientError" where
  "setExceptionDetails a i t this = this\<lparr> area := a, id' := i, utcTime := t \<rparr>"

definition toResponseFormat :: "ClientError \<Rightarrow> jsvalue" where
  "toResponseFormat this =
     JObj ([(''code'', JStr (errorCode this)), (''message'', JStr (message this))] @
           (if gt (id' this) (Num 0) \<and> length (area this) > 0 \<and> length (utcTime this) > 0
            then [(''id'', JNum (id' this)), (''area'', JStr (area this)),
                  (''utcTime'', JStr (utcTime this))]
            else []))"

definition toLogFormat :: "ClientError \<Rightarrow> jsvalue" where
  "toLogFormat this =
     JObj ([(''statusCode'', JNum (statusCode this)), (''clientError'', toResponseFormat this)] @
           (if truthy (logContext this) then [(''context'', logContext this)] else []))"

text \<open>
  The two ways the class lets a caller change an error after construction, and a
  history of such calls applied in order.
\<close>

datatype mutation = LogContext_set jsvalue | SetExceptionDetails string number string

fun mutate :: "ClientError \<Rightarrow> mutation \<Rightarrow> ClientError" where
  "mutate e (LogContext_set v) = set_LogContext v e"
| "mutate e (SetExceptionDetails a i t) = setExceptionDetails a i t e"

definition mutations :: "ClientError \<Rightarrow> mutation list \<Rightarrow> ClientError" where
  "mutations e ms = foldl mutate e ms"

text \<open>The arguments of the most recent \<open>setExceptionDetails\<close> call of a history, if any.\<close>

fun lastDetails :: "mutation list \<Rightarrow> (string \<times> number \<times> string) option" where
  "lastDetails [] = None"
| "lastDetails (LogContext_set v # ms) = lastDetails ms"
| "lastDetails (SetExceptionDetails a i t # ms) =
     (case lastDetails ms of None \<Rightarrow> Some (a, i, t) | Some d \<Rightarrow> Some d)"

section \<open>ErrorCodes\<close>

definition serverError :: string where "serverError = ''server_error''"
definition metadataLookupFailure :: string where "metadataLookupFailure = ''metadata_lookup_failure''"
definition signingKeyDownloadFailure :: string where "signingKeyDownloadFailure = ''signing_key_download''"
definition graphTokenExchangeError :: string where "graphTokenExchangeError = ''graph_token_exchange''"
definition userinfoFailure :: string where "userinfoFailure = ''userinfo_failure''"
definition claimsFailure :: string where "claimsFailure = ''claims_failure''"
definition companyNotFound :: string where "companyNotFound = ''company_not_found''"
definition invalidCompanyId :: string where "invalidCompanyId = ''invalid_company_id''"
definition fileReadError :: string where "fileReadError = ''file_read_error''"

section \<open>parseInt\<close>

text \<open>
  The built-in \<open>parseInt(string, radix)\<close> of ECMAScript: leading white space is
  dropped, one sign is read, a radix outside \<open>2..36\<close> (other than \<open>0\<close>) gives \<open>NaN\<close>, a
  \<open>0x\<close> prefix is stripped for radix \<open>0\<close> and \<open>16\<close> only, and the longest prefix of digits
  of the radix is converted; no digit gives \<open>NaN\<close>. A \<open>char\<close> is a code unit below 256,
  so the white space characters are those of ECMAScript in that range.
\<close>

definition isWhiteSpace :: "char \<Rightarrow> bool" where
  "isWhiteSpace c = ((of_char c :: nat) \<in> {9, 10, 11, 12, 13, 32, 160})"

definition digitOf :: "char \<Rightarrow> nat option" where
  "digitOf c =
     (let n = (of_char c :: nat) in
      if 48 \<le> n \<and> n \<le> 57 then Some (n - 48)
      else if 97 \<le> n \<and> n \<le> 122 then Some (n - 87)
      else if 65 \<le> n \<and> n \<le> 90 then Some (n - 55)
      else None)"

definition isRadixDigit :: "nat \<Rightarrow> char \<Rightarrow> bool" where
  "isRadixDigit R c = (case digitOf c of Some d \<Rightarrow> d < R | None \<Rightarrow> False)"

definition mathInt :: "nat \<Rightarrow> string \<Rightarrow> nat" where
  "mathInt R Z = foldl (\<lambda>acc c. acc * R + (case digitOf c of Some d \<Rightarrow> d | None \<Rightarrow> 0)) 0 Z"

definition hasHexPrefix :: "string \<Rightarrow> bool" where
  "hasHexPrefix S = (take 2 S = ''0x'' \<or> take 2 S = ''0X'')"

definition parseInt :: "string \<Rightarrow> int \<Rightarrow> number" where
  "parseInt inputString radix =
     (let S0 = dropWhile isWhiteSpace inputString;
          sign = (if S0 \<noteq> [] \<and> hd S0 = CHR ''-'' then - 1 else 1 :: int);
          S1 = (if S0 \<noteq> [] \<and> (hd S0 = CHR ''+'' \<or> hd S0 = CHR ''-'') then tl S0 else S0)
      in if radix \<noteq> 0 \<and> (radix < 2 \<or> radix > 36) then NaN
         else
           let stripPrefix = (radix = 0 \<or> radix = 16);
               R0 = (if radix = 0 then 10 else nat radix);
               strip = (stripPrefix \<and> hasHexPrefix S1);
               S2 = (if strip then drop 2 S1 else S1);
               R = (if strip then 16 else R0);
               Z = takeWhile (isRadixDigit R) S2
           in if Z = [] then NaN else Num (sign * int (mathInt R Z)))"

section \<open>Router (host/routing/router.ts)\<close>

text \<open>
  Objects live in a store: an address is an index into the list of the objects created
  so far, and \<open>new\<close> appends. The classes the router instantiates are not part of the
  modelled sources, so an object is recorded as its class with the arguments its
  constructor received (a reference is an address; the second argument of
  \<open>Authenticator\<close> is the \<open>IssuerMetadata\<close> instance whose \<open>issuer\<close> property was read).
\<close>

type_synonym addr = nat

record 'oauth Configuration =
  oauth :: 'oauth

datatype ('oauth, 'claims) obj =
    ClaimsCache 'oauth
  | IssuerMetadata 'oauth
  | Authenticator 'oauth addr
  | SampleCustomClaimsProvider
  | Authorizer addr addr addr
  | JsonFileReader
  | CompanyRepository addr
  | CompanyService addr "'claims option"

text \<open>What the handlers read of an Express request and write of an Express response.\<close>

record Request =
  params :: "string \<rightharpoonup> string"
  headers :: "string \<rightharpoonup> string"

text \<open>
  \<open>request.params.id\<close> as \<open>parseInt\<close> receives it: a missing property is \<open>undefined\<close>,
  which \<open>parseInt\<close> converts to the string \<open>undefined\<close>.
\<close>

definition params_id :: "Request \<Rightarrow> string" where
  "params_id request = (case params request ''id'' of Some s \<Rightarrow> s | None \<Rightarrow> ''undefined'')"

record 'claims Response =
  locals_claims :: "'claims option"

text \<open>
  The effects of the router on its surroundings, logged in the order they happen: the
  calls of methods of collaborators, the assignment to \<open>response.locals.claims\<close> and
  the call of \<open>next()\<close>.
\<close>

datatype 'claims effect =
    Call_load addr
  | Call_authorizeRequestAndGetClaims addr Request
  | Assign_locals_claims 'claims
  | Call_next
  | Call_getCompanyTransactions addr number
  | Call_writeObjectResponse number jsvalue

record ('oauth, 'claims) world =
  heap :: "('oauth, 'claims) obj list"
  effects :: "'claims effect list"

definition new :: "('oauth, 'claims) obj \<Rightarrow> ('oauth, 'claims) world \<Rightarrow> addr \<times> ('oauth, 'claims) world" where
  "new ob w = (length (heap w), w\<lparr> heap := heap w @ [ob] \<rparr>)"

definition perform :: "'claims effect \<Rightarrow> ('oauth, 'claims) world \<Rightarrow> ('oauth, 'claims) world" where
  "perform ef w = w\<lparr> effects := effects w @ [ef] \<rparr>"

text \<open>
  What a handler can throw: the router's own \<open>ClientError\<close>, or whatever a collaborator
  threw.
\<close>

datatype 'e thrown = ClientError_thrown ClientError | Collaborator_thrown 'e

record 'oauth Router =
  apiConfig :: "'oauth Configuration"
  claimsCache :: addr
  issuerMetadata :: addr

text \<open>
  The constructor. Its last statement, \<open>_setupCallbacks\<close>, binds the handlers to the
  instance and changes neither a field nor the store.
\<close>

definition new_Router :: "'oauth Configuration \<Rightarrow> ('oauth, 'claims) world \<Rightarrow> 'oauth Router \<times> ('oauth, 'claims) world" where
  "new_Router cfg w =
     (let (cc, w1) = new (ClaimsCache (oauth cfg)) w;
          (im, w2) = new (IssuerMetadata (oauth cfg)) w1
      in (\<lparr> apiConfig = cfg, claimsCache = cc, issuerMetadata = im \<rparr>, w2))"

text \<open>
  \<open>initialize\<close> awaits \<open>IssuerMetadata.load\<close>. The outcome of that call is a parameter:
  \<open>load a w\<close> is the error thrown by the load of the instance at \<open>a\<close> when it is called in
  the world \<open>w\<close>, or \<open>None\<close> when it succeeds. The world holds the whole history, so the
  outcome may depend on anything that happened before.
\<close>

definition initialize ::
  "(addr \<Rightarrow> ('oauth, 'claims) world \<Rightarrow> 'e option) \<Rightarrow> 'oauth Router \<Rightarrow> ('oauth, 'claims) world
     \<Rightarrow> ('e + unit) \<times> ('oauth, 'claims) world" where
  "initialize load this w =
     (let w1 = perform (Call_load (issuerMetadata this)) w
      in case load (issuerMetadata this) w of
           Some e \<Rightarrow> (Inl e, w1)
         | None \<Rightarrow> (Inr (), w1))"

text \<open>
  The first block of \<open>authorizationHandler\<close>: the three objects created on every
  request. The result is the address of the authorizer.
\<close>

definition createAuthorizer :: "'oauth Router \<Rightarrow> ('oauth, 'claims) world \<Rightarrow> addr \<times> ('oauth, 'claims) world" where
  "createAuthorizer this w =
     (let (authenticator, w1) = new (Authenticator (oauth (apiConfig this)) (issuerMetadata this)) w;
          (customClaimsProvider, w2) = new SampleCustomClaimsProvider w1;
          (authorizer, w3) = new (Authorizer (claimsCache this) authenticator customClaimsProvider) w2
      in (authorizer, w3))"

text \<open>
  \<open>authorizationHandler\<close>. The outcome of \<open>Authorizer.authorizeRequestAndGetClaims\<close> is
  a parameter, a function of the authorizer, the request and the world at the call:
  the error it throws or the claims it returns. A thrown error leaves the handler at
  the \<open>await\<close>; the result is the thrown error or \<open>()\<close>, the response as the handler
  leaves it, and the world.
\<close>

definition authorizationHandler ::
  "(addr \<Rightarrow> Request \<Rightarrow> ('oauth, 'claims) world \<Rightarrow> 'e + 'claims) \<Rightarrow> 'oauth Router \<Rightarrow> Request
     \<Rightarrow> 'claims Response \<Rightarrow> ('oauth, 'claims) world
     \<Rightarrow> ('e + unit) \<times> 'claims Response \<times> ('oauth, 'claims) world" where
  "authorizationHandler authorizeRequestAndGetClaims this request response w =
     (let (authorizer, w3) = createAuthorizer this w;
          w4 = perform (Call_authorizeRequestAndGetClaims authorizer request) w3
      in case authorizeRequestAndGetClaims authorizer request w3 of
           Inl e \<Rightarrow> (Inl e, response, w4)
         | Inr claims \<Rightarrow>
             (let response' = response\<lparr> locals_claims := Some claims \<rparr>;
                  w5 = perform (Assign_locals_claims claims) w4;
                  w6 = perform Call_next w5
              in (Inr (), response', w6)))"

text \<open>
  The first block of \<open>getCompanyTransactions\<close>: the controller instance and its
  dependencies. The result is the address of the service.
\<close>

definition createCompanyService :: "'claims Response \<Rightarrow> ('oauth, 'claims) world \<Rightarrow> addr \<times> ('oauth, 'claims) world" where
  "createCompanyService response w =
     (let (reader, w1) = new JsonFileReader w;
          (repository, w2) = new (CompanyRepository reader) w1;
          (service, w3) = new (CompanyService repository (locals_claims response)) w2
      in (service, w3))"

text \<open>
  \<open>getCompanyTransactions\<close>. The outcome of \<open>CompanyService.getCompanyTransactions\<close>
  is a parameter: what it throws or the object it returns.
\<close>

definition getCompanyTransactions ::
  "(addr \<Rightarrow> number \<Rightarrow> ('oauth, 'claims) world \<Rightarrow> 'e thrown + jsvalue) \<Rightarrow> 'oauth Router \<Rightarrow> Request
     \<Rightarrow> 'claims Response \<Rightarrow> ('oauth, 'claims) world
     \<Rightarrow> ('e thrown + unit) \<times> ('oauth, 'claims) world" where
  "getCompanyTransactions serviceGetCompanyTransactions this request response w =
     (let (service, w3) = createCompanyService response w;
          n = parseInt (params_id request) 10
      in if isNaN n \<or> le n (Num 0)
         then (Inl (ClientError_thrown
                 (new_ClientError (Num 400) invalidCompanyId
                    ''The company id must be a positive numeric integer'')), w3)
         else
           (let w4 = perform (Call_getCompanyTransactions service n) w3
            in case serviceGetCompanyTransactions service n w3 of
                 Inl e \<Rightarrow> (Inl e, w4)
               | Inr result \<Rightarrow> (Inr (), perform (Call_writeObjectResponse (Num 200) result) w4)))"

text \<open>
  Express hands the requests that arrive to the bound handler of the one router, each
  with a response of its own.
\<close>

fun serve ::
  "(addr \<Rightarrow> Request \<Rightarrow> ('oauth, 'claims) world \<Rightarrow> 'e + 'claims) \<Rightarrow> 'oauth Router
     \<Rightarrow> (Request \<times> 'claims Response) list \<Rightarrow> ('oauth, 'claims) world \<Rightarrow> ('oauth, 'claims) world" where
  "serve authorize this [] w = w"
| "serve authorize this ((request, response) # rest) w =
     serve authorize this rest (snd (snd (authorizationHandler authorize this request response w)))"

section \<open>The error taxonomy\<close>

text \<open>
  Modelled from the spec: the classified errors of the authorization pipeline. The
  classes that throw them are not among the sources. The spec names five kinds, each
  with its HTTP status; the error code of a kind is the constant of \<open>ErrorCodes\<close> that
  the source documents for it (the source has no code for an invalid token).
\<close>

datatype ErrorKind =
    InvalidToken
  | MetadataLookupFailure
  | SigningKeyDownloadFailure
  | ClaimsFailure
  | ServerError

text \<open>Modelled from the spec: the HTTP status of each kind of error (spec, section 7).\<close>

fun httpStatus :: "ErrorKind \<Rightarrow> nat" where
  "httpStatus InvalidToken = 401"
| "httpStatus MetadataLookupFailure = 500"
| "httpStatus SigningKeyDownloadFailure = 500"
| "httpStatus ClaimsFailure = 500"
| "httpStatus ServerError = 500"

text \<open>
  Modelled from the spec: the error code of each kind, where \<open>ErrorCodes\<close> has one for
  it.
\<close>

fun errorCodeOf :: "ErrorKind \<Rightarrow> string option" where
  "errorCodeOf InvalidToken = None"
| "errorCodeOf MetadataLookupFailure = Some metadataLookupFailure"
| "errorCodeOf SigningKeyDownloadFailure = Some signingKeyDownloadFailure"
| "errorCodeOf ClaimsFailure = Some claimsFailure"
| "errorCodeOf ServerError = Some serverError"

section \<open>IssuerMetadata\<close>

text \<open>
  Modelled from the spec: the data held by \<open>IssuerMetadata\<close>, whose class is not among
  the sources. The spec gives \<open>IssuerConfig\<close> and the entries of the \<open>SigningKeySet\<close>
  (an ordered collection). The field \<open>steps\<close> is a log of what the component did (a
  lookup of a key id, a refresh of the key set), kept so that the number of refreshes
  and of lookups can be stated.
\<close>

record IssuerConfig =
  issuer :: string
  jwksUri :: string
  requiredAudience :: string

text \<open>Modelled from the spec: an entry of the SigningKeySet.\<close>

record SigningKey =
  keyId :: string
  publicKey :: string
  algorithm :: string

text \<open>
  Modelled from the spec: the state of \<open>IssuerMetadata\<close>, the IssuerConfig (absent until
  loaded) and the SigningKeySet it owns, with the log of its steps.
\<close>

datatype metadataStep = Lookup string | Refresh

record IssuerMetadataState =
  issuerConfig :: "IssuerConfig option"
  signingKeySet :: "SigningKey list"
  steps :: "metadataStep list"

text \<open>
  Modelled from the spec: \<open>IssuerMetadata.load\<close>, which fetches and stores IssuerConfig
  and the initial SigningKeySet and fails with MetadataLookupFailure if the discovery
  document cannot be retrieved or parsed. The first argument is what the network
  gave: \<open>None\<close> when the document could not be retrieved or parsed.
\<close>

definition IssuerMetadata_load ::
  "(IssuerConfig \<times> SigningKey list) option \<Rightarrow> IssuerMetadataState \<Rightarrow> ErrorKind + IssuerMetadataState" where
  "IssuerMetadata_load discovery md =
     (case discovery of
        None \<Rightarrow> Inl MetadataLookupFailure
      | Some (cfg, ks) \<Rightarrow> Inr (md\<lparr> issuerConfig := Some cfg, signingKeySet := ks \<rparr>))"

text \<open>
  Modelled from the spec: the outcome of \<open>IssuerMetadata.load\<close> as \<open>initialize\<close> sees it,
  for an instance whose state and whose network answer at the call are given by
  \<open>stateOf\<close> and \<open>discovery\<close>.
\<close>

definition loadOutcome ::
  "(addr \<Rightarrow> ('oauth, 'claims) world \<Rightarrow> (IssuerConfig \<times> SigningKey list) option)
     \<Rightarrow> (addr \<Rightarrow> ('oauth, 'claims) world \<Rightarrow> IssuerMetadataState)
     \<Rightarrow> addr \<Rightarrow> ('oauth, 'claims) world \<Rightarrow> ErrorKind option" where
  "loadOutcome discovery stateOf a w =
     (case IssuerMetadata_load (discovery a w) (stateOf a w) of
        Inl e \<Rightarrow> Some e
      | Inr md \<Rightarrow> None)"

text \<open>
  Modelled from the spec: the lookup of a key by its key id in the current key set.
\<close>

definition lookupKey :: "string \<Rightarrow> IssuerMetadataState \<Rightarrow> SigningKey option \<times> IssuerMetadataState" where
  "lookupKey kid md =
     (find (\<lambda>k. keyId k = kid) (signingKeySet md), md\<lparr> steps := steps md @ [Lookup kid] \<rparr>)"

text \<open>
  Modelled from the spec: the refresh of the key set, which fully replaces it rather
  than merging. The argument is what the key endpoint gave: \<open>None\<close> when the download
  failed, which leaves the key set as it was.
\<close>

definition refresh :: "SigningKey list option \<Rightarrow> IssuerMetadataState \<Rightarrow> IssuerMetadataState" where
  "refresh fetched md =
     (case fetched of
        None \<Rightarrow> md\<lparr> steps := steps md @ [Refresh] \<rparr>
      | Some ks \<Rightarrow> md\<lparr> signingKeySet := ks, steps := steps md @ [Refresh] \<rparr>)"

text \<open>
  Modelled from the spec: \<open>IssuerMetadata.getSigningKey\<close>, which returns the matching
  key; if not present, performs one synchronous refresh of the key set and retries the
  lookup once; if still absent, fails with SigningKeyDownloadFailure.
\<close>

definition getSigningKey ::
  "SigningKey list option \<Rightarrow> string \<Rightarrow> IssuerMetadataState \<Rightarrow> (ErrorKind + SigningKey) \<times> IssuerMetadataState" where
  "getSigningKey fetched kid md =
     (case lookupKey kid md of
        (Some k, md1) \<Rightarrow> (Inr k, md1)
      | (None, md1) \<Rightarrow>
          (case lookupKey kid (refresh fetched md1) of
             (Some k, md2) \<Rightarrow> (Inr k, md2)
           | (None, md2) \<Rightarrow> (Inl SigningKeyDownloadFailure, md2)))"

section \<open>ClaimsCache\<close>

text \<open>
  Modelled from the spec: the data of the claims cache, whose class is not among the
  sources. \<open>BaseClaims\<close>, \<open>ClaimsPrincipal\<close> and \<open>CacheEntry\<close> are the spec's; a
  timestamp is an integer, the custom claims are left open, and \<open>issuer'\<close> is the field
  \<open>issuer\<close> of the base claims.
\<close>

record BaseClaims =
  subject :: string
  scopes :: "string list"
  expiry :: int
  issuer' :: string
  audience :: string

text \<open>Modelled from the spec: \<open>ClaimsPrincipal\<close>, the unit cached and returned to the caller.\<close>

record 'custom ClaimsPrincipal =
  base :: BaseClaims
  custom :: 'custom

text \<open>Modelled from the spec: \<open>CacheEntry\<close>, keyed by a stable hash of the raw token string.\<close>

record 'custom CacheEntry =
  principal :: "'custom ClaimsPrincipal"
  expiresAt :: int

type_synonym tokenKey = string
type_synonym caller = nat

text \<open>
  Modelled from the spec: the cache as a mapping from key to an in-progress-or-completed
  computation handle. A slot in flight holds the callers that wait for the one
  computation, in the order they arrived. Two logs make the behaviour observable:
  \<open>computations\<close> has one entry for every invocation of the compute function, and
  \<open>returned\<close> has one entry for every call that completed, with what it returned (a
  principal) or threw (an error).
\<close>

datatype 'custom slot =
    InFlight "caller list"
  | Completed "'custom CacheEntry"

text \<open>Modelled from the spec: the state of the cache, with the two logs.\<close>

record 'custom ClaimsCacheState =
  slots :: "tokenKey \<rightharpoonup> 'custom slot"
  computations :: "tokenKey list"
  returned :: "(caller \<times> tokenKey \<times> (ErrorKind + 'custom ClaimsPrincipal)) list"

text \<open>Modelled from the spec: the cache as constructed, with no entry.\<close>

definition emptyCache :: "'custom ClaimsCacheState" where
  "emptyCache = \<lparr> slots = Map.empty, computations = [], returned = [] \<rparr>"

text \<open>
  Modelled from the spec: the caller that finds no entry, or an expired one, becomes
  the one that computes: the compute function is invoked and the slot is in flight.
\<close>

definition startComputation :: "caller \<Rightarrow> tokenKey \<Rightarrow> 'custom ClaimsCacheState \<Rightarrow> 'custom ClaimsCacheState" where
  "startComputation c k s =
     s\<lparr> slots := (slots s)(k \<mapsto> InFlight [c]), computations := computations s @ [k] \<rparr>"

text \<open>
  Modelled from the spec: \<open>ClaimsCache.getOrCompute\<close>, up to its first suspension, for
  the caller \<open>c\<close> at the time \<open>now\<close>. A live entry is returned at once; an entry is
  expired when \<open>now > expiresAt\<close>, and is removed on this access; while a computation
  is in flight the caller joins its waiters.
\<close>

definition getOrCompute :: "caller \<Rightarrow> tokenKey \<Rightarrow> int \<Rightarrow> 'custom ClaimsCacheState \<Rightarrow> 'custom ClaimsCacheState" where
  "getOrCompute c k now s =
     (case slots s k of
        None \<Rightarrow> startComputation c k s
      | Some (InFlight cs) \<Rightarrow> s\<lparr> slots := (slots s)(k \<mapsto> InFlight (cs @ [c])) \<rparr>
      | Some (Completed e) \<Rightarrow>
          if now > expiresAt e
          then startComputation c k (s\<lparr> slots := (slots s)(k := None) \<rparr>)
          else s\<lparr> returned := returned s @ [(c, k, Inr (principal e))] \<rparr>)"

text \<open>
  Modelled from the spec: the computation for a key settles with \<open>r\<close>. On success the
  entry \<open>{principal, expiresAt = principal.base.expiry}\<close> is stored and every waiter
  returns the principal; on failure nothing is stored and every waiter gets the
  error. Without a computation in flight there is nothing to settle.
\<close>

definition computeSettled ::
  "tokenKey \<Rightarrow> ErrorKind + 'custom ClaimsPrincipal \<Rightarrow> 'custom ClaimsCacheState \<Rightarrow> 'custom ClaimsCacheState" where
  "computeSettled k r s =
     (case slots s k of
        Some (InFlight cs) \<Rightarrow>
          (case r of
             Inr p \<Rightarrow>
               s\<lparr> slots := (slots s)(k \<mapsto> Completed \<lparr> principal = p, expiresAt = expiry (base p) \<rparr>),
                  returned := returned s @ map (\<lambda>c. (c, k, Inr p)) cs \<rparr>
           | Inl err \<Rightarrow>
               s\<lparr> slots := (slots s)(k := None),
                  returned := returned s @ map (\<lambda>c. (c, k, Inl err)) cs \<rparr>)
      | _ \<Rightarrow> s)"

text \<open>
  Modelled from the spec: concurrent use of the cache. The operations suspend at the
  compute function only, so a concurrent run is an interleaving of two kinds of
  events: a call of \<open>getOrCompute\<close> by a caller at a time, and the settling of the
  computation for a key with its result.
\<close>

datatype 'custom event =
    Called caller tokenKey int
  | Settled tokenKey "ErrorKind + 'custom ClaimsPrincipal"

text \<open>The key an event is about.\<close>

fun keyOf :: "'custom event \<Rightarrow> tokenKey" where
  "keyOf (Called c k now) = k"
| "keyOf (Settled k r) = k"

text \<open>Modelled from the spec: what one event does to the cache, and a run of events.\<close>

fun step :: "'custom ClaimsCacheState \<Rightarrow> 'custom event \<Rightarrow> 'custom ClaimsCacheState" where
  "step s (Called c k now) = getOrCompute c k now s"
| "step s (Settled k r) = computeSettled k r s"

definition run :: "'custom ClaimsCacheState \<Rightarrow> 'custom event list \<Rightarrow> 'custom ClaimsCacheState" where
  "run s es = foldl step s es"

text \<open>
  Modelled from the spec: no live entry exists for a key at a time, and none is being
  computed: there is no entry at all, or an expired one.
\<close>

definition noLiveEntry :: "'custom ClaimsCacheState \<Rightarrow> tokenKey \<Rightarrow> int \<Rightarrow> bool" where
  "noLiveEntry s k now =
     (case slots s k of
        None \<Rightarrow> True
      | Some (InFlight cs) \<Rightarrow> False
      | Some (Completed e) \<Rightarrow> now > expiresAt e)"

text \<open>The entries of the log of completed calls that belong to one key.\<close>

definition forKey :: "tokenKey \<Rightarrow> (caller \<times> tokenKey \<times> 'r) list \<Rightarrow> (caller \<times> tokenKey \<times> 'r) list" where
  "forKey k rs = filter (\<lambda>x. fst (snd x) = k) rs"

text \<open>The events of a list of calls of \<open>getOrCompute\<close> for one key, each by a caller at a time.\<close>

definition callsOf :: "tokenKey \<Rightarrow> (caller \<times> int) list \<Rightarrow> 'custom event list" where
  "callsOf k cts = map (\<lambda>ct. Called (fst ct) k (snd ct)) cts"

text \<open>
  What the cache holds and has done for one key: its slot, the number of computations
  started for it, and the calls for it that completed.
\<close>

definition view ::
  "tokenKey \<Rightarrow> 'custom ClaimsCacheState
     \<Rightarrow> 'custom slot option \<times> nat \<times> (caller \<times> tokenKey \<times> (ErrorKind + 'custom ClaimsPrincipal)) list" where
  "view k s = (slots s k, count_list (computations s) k, forKey k (returned s))"

text \<open>
  Modelled from the spec: the invariant of the data model that the expiresAt of a
  CacheEntry never exceeds the expiry of its base claims; a stored entry expires when
  its token does.
\<close>

definition entriesExpireWithToken :: "'custom ClaimsCacheState \<Rightarrow> bool" where
  "entriesExpireWithToken s =
     (\<forall>k e. slots s k = Some (Completed e) \<longrightarrow> expiresAt e = expiry (base (principal e)))"

text \<open>A principal whose token expires at time 10, for the concrete instances below.\<close>

definition samplePrincipal :: "unit ClaimsPrincipal" where
  "samplePrincipal =
     \<lparr> base = \<lparr> subject = ''alice'', scopes = [''read''], expiry = 10, issuer' = ''idp'',
                audience = ''api'' \<rparr>,
       custom = () \<rparr>"

section \<open>Properties of ClientError\<close>

lemma mutate_frame:
  "statusCode (mutate e m) = statusCode e \<and> errorCode (mutate e m) = errorCode e \<and>
   message (mutate e m) = message e"
  by (cases m) (simp_all add: set_LogContext_def setExceptionDetails_def)

lemma mutations_frame:
  "statusCode (mutations e ms) = statusCode e \<and> errorCode (mutations e ms) = errorCode e \<and>
   message (mutations e ms) = message e"
  unfolding mutations_def
  by (induction ms arbitrary: e) (simp_all add: mutate_frame)

lemma mutations_details:
  "(area (mutations e ms), id' (mutations e ms), utcTime (mutations e ms)) =
     (case lastDetails ms of None \<Rightarrow> (area e, id' e, utcTime e) | Some d \<Rightarrow> d)"
  unfolding mutations_def
proof (induction ms arbitrary: e)
  case Nil
  show ?case by simp
next
  case (Cons m ms)
  show ?case
  proof (cases m)
    case (LogContext_set v)
    then show ?thesis using Cons [of "set_LogContext v e"]
      by (simp add: set_LogContext_def split: option.splits)
  next
    case (SetExceptionDetails a i t)
    then show ?thesis using Cons [of "setExceptionDetails a i t e"]
      by (simp add: setExceptionDetails_def split: option.splits)
  qed
qed

text \<open>
  Claim C5, as amended. For every ClientError, whatever its status code, and every
  history of calls of \<open>setExceptionDetails\<close> and of the \<open>LogContext\<close> setter made on it
  since its construction, \<open>toResponseFormat\<close> returns a body containing exactly
  \<open>{code, message}\<close>, unless the most recent call of \<open>setExceptionDetails\<close> had
  \<open>id > 0\<close>, a non-empty area and a non-empty utcTime, in which case the body
  additionally contains \<open>{id, area, utcTime}\<close> of that call. In particular an error on
  which \<open>setExceptionDetails\<close> is never called is serialized without correlation
  detail; the status code plays no part.
\<close>

theorem toResponseFormat_details:
  "toResponseFormat (mutations (new_ClientError sc ec msg) ms) =
     JObj ([(''code'', JStr ec), (''message'', JStr msg)] @
       (case lastDetails ms of
          None \<Rightarrow> []
        | Some (a, i, t) \<Rightarrow>
            if gt i (Num 0) \<and> a \<noteq> [] \<and> t \<noteq> []
            then [(''id'', JNum i), (''area'', JStr a), (''utcTime'', JStr t)]
            else []))"
proof -
  let ?e = "mutations (new_ClientError sc ec msg) ms"
  have frame: "errorCode ?e = ec" "message ?e = msg"
    using mutations_frame [of "new_ClientError sc ec msg" ms] by (simp_all add: new_ClientError_def)
  have det: "(area ?e, id' ?e, utcTime ?e) =
      (case lastDetails ms of None \<Rightarrow> ([], Num 0, []) | Some d \<Rightarrow> d)"
    using mutations_details [of "new_ClientError sc ec msg" ms]
    by (simp add: new_ClientError_def split: option.splits)
  show ?thesis
  proof (cases "lastDetails ms")
    case None
    with det have "area ?e = []" "id' ?e = Num 0" "utcTime ?e = []" by simp_all
    with None frame show ?thesis by (simp add: toResponseFormat_def)
  next
    case (Some d)
    obtain a i t where d: "d = (a, i, t)" by (cases d)
    with Some det have "area ?e = a" "id' ?e = i" "utcTime ?e = t" by simp_all
    with Some d frame show ?thesis by (simp add: toResponseFormat_def)
  qed
qed

text \<open>
  The claim as first stated also says that every 500-class error carries
  \<open>{id, area, utcTime}\<close>. A freshly constructed error with status 500 does not.
\<close>

theorem toResponseFormat_500_counterexample:
  "getStatusCode (new_ClientError (Num 500) serverError ''Problem encountered'') = Num 500 \<and>
   toResponseFormat (new_ClientError (Num 500) serverError ''Problem encountered'') =
     JObj [(''code'', JStr ''server_error''), (''message'', JStr ''Problem encountered'')]"
  by (simp add: getStatusCode_def toResponseFormat_def new_ClientError_def serverError_def)

text \<open>
  Two histories on a 500 error: details set and kept across a later \<open>LogContext\<close>
  assignment; details set and then overwritten by a call with id 0.
\<close>

theorem toResponseFormat_details_witness:
  "toResponseFormat (mutations (new_ClientError (Num 500) ''server_error'' ''Problem'')
      [SetExceptionDetails ''API'' (Num 12345) ''2020-01-01T00:00:00'', LogContext_set (JStr ''x'')]) =
     JObj [(''code'', JStr ''server_error''), (''message'', JStr ''Problem''),
           (''id'', JNum (Num 12345)), (''area'', JStr ''API''),
           (''utcTime'', JStr ''2020-01-01T00:00:00'')] \<and>
   toResponseFormat (mutations (new_ClientError (Num 500) ''server_error'' ''Problem'')
      [SetExceptionDetails ''API'' (Num 12345) ''2020-01-01T00:00:00'',
       SetExceptionDetails ''API'' (Num 0) ''2020-01-01T00:00:00'']) =
     JObj [(''code'', JStr ''server_error''), (''message'', JStr ''Problem'')]"
  using toResponseFormat_details [of "Num 500" "''server_error''" "''Problem''"
      "[SetExceptionDetails ''API'' (Num 12345) ''2020-01-01T00:00:00'', LogContext_set (JStr ''x'')]"]
    toResponseFormat_details [of "Num 500" "''server_error''" "''Problem''"
      "[SetExceptionDetails ''API'' (Num 12345) ''2020-01-01T00:00:00'',
        SetExceptionDetails ''API'' (Num 0) ''2020-01-01T00:00:00'']"]
  by simp

text \<open>
  Claim C10. For every ClientError, the status code and the error code are fixed at
  construction: \<open>getStatusCode\<close> returns the constructor's statusCode argument, also
  after any history of calls of \<open>setExceptionDetails\<close> and of the \<open>LogContext\<close> setter,
  and neither call changes the status code, the error code or the message of the
  error it is made on.
\<close>

theorem statusCode_fixed:
  "getStatusCode (new_ClientError sc ec msg) = sc \<and>
   getStatusCode (mutations (new_ClientError sc ec msg) ms) = sc \<and>
   errorCode (mutations (new_ClientError sc ec msg) ms) = ec \<and>
   message (mutations (new_ClientError sc ec msg) ms) = msg \<and>
   getStatusCode (setExceptionDetails a i t e) = getStatusCode e \<and>
   errorCode (setExceptionDetails a i t e) = errorCode e \<and>
   message (setExceptionDetails a i t e) = message e \<and>
   getStatusCode (set_LogContext v e) = getStatusCode e \<and>
   errorCode (set_LogContext v e) = errorCode e \<and>
   message (set_LogContext v e) = message e"
proof -
  have "statusCode (mutations (new_ClientError sc ec msg) ms) = sc"
    "errorCode (mutations (new_ClientError sc ec msg) ms) = ec"
    "message (mutations (new_ClientError sc ec msg) ms) = msg"
    using mutations_frame [of "new_ClientError sc ec msg" ms] by (simp_all add: new_ClientError_def)
  then show ?thesis
    by (simp add: getStatusCode_def new_ClientError_def setExceptionDetails_def set_LogContext_def)
qed

theorem statusCode_fixed_witness:
  "getStatusCode (mutations (new_ClientError (Num 400) invalidCompanyId ''The company id must be a positive numeric integer'')
      [LogContext_set (JStr ''abc''), SetExceptionDetails ''API'' (Num 7) ''now'']) = Num 400 \<and>
   errorCode (mutations (new_ClientError (Num 400) invalidCompanyId ''The company id must be a positive numeric integer'')
      [LogContext_set (JStr ''abc''), SetExceptionDetails ''API'' (Num 7) ''now'']) = invalidCompanyId"
  using statusCode_fixed [of "Num 400" invalidCompanyId
      "''The company id must be a positive numeric integer''"
      "[LogContext_set (JStr ''abc''), SetExceptionDetails ''API'' (Num 7) ''now'']"]
  by simp

section \<open>Properties of the router\<close>

lemma createAuthorizer_eq:
  "createAuthorizer this w =
     (length (heap w) + 2,
      w\<lparr> heap := heap w @ [Authenticator (oauth (apiConfig this)) (issuerMetadata this),
                             SampleCustomClaimsProvider,
                             Authorizer (claimsCache this) (length (heap w)) (length (heap w) + 1)] \<rparr>)"
  by (simp add: createAuthorizer_def new_def)

lemma authorizationHandler_heap:
  "heap (snd (snd (authorizationHandler authorize this request response w))) =
     heap w @ [Authenticator (oauth (apiConfig this)) (issuerMetadata this),
               SampleCustomClaimsProvider,
               Authorizer (claimsCache this) (length (heap w)) (length (heap w) + 1)]"
  by (simp add: authorizationHandler_def createAuthorizer_eq perform_def Let_def split: sum.splits)

lemma serve_heap:
  "heap (serve authorize this reqs w) =
     heap w @ concat (map (\<lambda>k. [Authenticator (oauth (apiConfig this)) (issuerMetadata this),
                                 SampleCustomClaimsProvider,
                                 Authorizer (claimsCache this) (length (heap w) + 3 * k)
                                   (length (heap w) + 3 * k + 1)]) [0..<length reqs])"
proof (induction reqs arbitrary: w)
  case Nil
  show ?case by simp
next
  case (Cons rq reqs)
  obtain request response where rq: "rq = (request, response)" by (cases rq)
  let ?w' = "snd (snd (authorizationHandler authorize this request response w))"
  have h: "heap ?w' = heap w @ [Authenticator (oauth (apiConfig this)) (issuerMetadata this),
               SampleCustomClaimsProvider,
               Authorizer (claimsCache this) (length (heap w)) (length (heap w) + 1)]"
    by (rule authorizationHandler_heap)
  have len: "length (heap ?w') = length (heap w) + 3" by (simp add: h)
  show ?case
    unfolding rq serve.simps Cons.IH [of ?w'] len
    by (simp add: h map_upt_Suc add.assoc del: upt_Suc)
qed

lemma createCompanyService_eq:
  "createCompanyService response w =
     (length (heap w) + 2,
      w\<lparr> heap := heap w @ [JsonFileReader, CompanyRepository (length (heap w)),
                             CompanyService (length (heap w) + 1) (locals_claims response)] \<rparr>)"
  by (simp add: createCompanyService_def new_def)

text \<open>
  Claim C6. \<open>Router.initialize\<close> performs exactly the one issuer metadata load and
  nothing else: its only effect is the call of \<open>load\<close> on the router's IssuerMetadata,
  it creates no object, and it fails exactly when the load fails, with the error of
  the load. With the load of the spec, which fails with MetadataLookupFailure when the
  discovery document cannot be retrieved or parsed, \<open>initialize\<close> then fails with
  MetadataLookupFailure (status 500, error code \<open>metadata_lookup_failure\<close>), and
  succeeds otherwise.
\<close>

theorem initialize_only_loads:
  "effects (snd (initialize load this w)) = effects w @ [Call_load (issuerMetadata this)] \<and>
   heap (snd (initialize load this w)) = heap w \<and>
   fst (initialize load this w) =
     (case load (issuerMetadata this) w of Some e \<Rightarrow> Inl e | None \<Rightarrow> Inr ()) \<and>
   (discovery (issuerMetadata this) w = None \<longrightarrow>
      fst (initialize (loadOutcome discovery stateOf) this w) = Inl MetadataLookupFailure \<and>
      errorCodeOf MetadataLookupFailure = Some ''metadata_lookup_failure'' \<and>
      httpStatus MetadataLookupFailure = 500) \<and>
   (discovery (issuerMetadata this) w \<noteq> None \<longrightarrow>
      fst (initialize (loadOutcome discovery stateOf) this w) = Inr ())"
proof -
  have a: "effects (snd (initialize load this w)) = effects w @ [Call_load (issuerMetadata this)]"
    and b: "heap (snd (initialize load this w)) = heap w"
    and c: "fst (initialize load this w) =
       (case load (issuerMetadata this) w of Some e \<Rightarrow> Inl e | None \<Rightarrow> Inr ())"
    by (simp_all add: initialize_def perform_def Let_def split: option.splits)
  have d: "discovery (issuerMetadata this) w = None \<Longrightarrow>
      loadOutcome discovery stateOf (issuerMetadata this) w = Some MetadataLookupFailure"
    by (simp add: loadOutcome_def IssuerMetadata_load_def)
  have e: "discovery (issuerMetadata this) w \<noteq> None \<Longrightarrow>
      loadOutcome discovery stateOf (issuerMetadata this) w = None"
    by (auto simp add: loadOutcome_def IssuerMetadata_load_def)
  show ?thesis
    using a b c d e
    by (simp add: initialize_def perform_def metadataLookupFailure_def)
qed

text \<open>
  A router whose metadata endpoint is unreachable at start-up, and the same router
  when the discovery document arrives.
\<close>

theorem initialize_only_loads_witness:
  "initialize (loadOutcome (\<lambda>a w. None)
        (\<lambda>a w. \<lparr> issuerConfig = None, signingKeySet = [], steps = [] \<rparr>))
      \<lparr> apiConfig = \<lparr> oauth = () \<rparr>, claimsCache = 0, issuerMetadata = 1 \<rparr>
      (\<lparr> heap = [ClaimsCache (), IssuerMetadata ()], effects = [] \<rparr> :: (unit, unit) world) =
     (Inl MetadataLookupFailure, \<lparr> heap = [ClaimsCache (), IssuerMetadata ()], effects = [Call_load 1] \<rparr>) \<and>
   fst (initialize (loadOutcome
        (\<lambda>a w. Some (\<lparr> issuer = ''idp'', jwksUri = ''idp/keys'', requiredAudience = ''api'' \<rparr>, []))
        (\<lambda>a w. \<lparr> issuerConfig = None, signingKeySet = [], steps = [] \<rparr>))
      \<lparr> apiConfig = \<lparr> oauth = () \<rparr>, claimsCache = 0, issuerMetadata = 1 \<rparr>
      (\<lparr> heap = [ClaimsCache (), IssuerMetadata ()], effects = [] \<rparr> :: (unit, unit) world)) = Inr ()"
proof -
  let ?r = "\<lparr> apiConfig = \<lparr> oauth = () \<rparr>, claimsCache = 0, issuerMetadata = 1 \<rparr>"
  let ?w = "\<lparr> heap = [ClaimsCache (), IssuerMetadata ()], effects = [] \<rparr> :: (unit, unit) world"
  let ?st = "\<lambda>(a :: addr) (w :: (unit, unit) world). \<lparr> issuerConfig = None, signingKeySet = [], steps = [] \<rparr>"
  let ?down = "\<lambda>(a :: addr) (w :: (unit, unit) world). None :: (IssuerConfig \<times> SigningKey list) option"
  let ?up = "\<lambda>(a :: addr) (w :: (unit, unit) world).
      Some (\<lparr> issuer = ''idp'', jwksUri = ''idp/keys'', requiredAudience = ''api'' \<rparr>, [] :: SigningKey list)"
  have x: "fst (initialize (loadOutcome ?down ?st) ?r ?w) = Inl MetadataLookupFailure"
    and y: "effects (snd (initialize (loadOutcome ?down ?st) ?r ?w)) = [Call_load 1]"
    and z: "heap (snd (initialize (loadOutcome ?down ?st) ?r ?w)) = [ClaimsCache (), IssuerMetadata ()]"
    using initialize_only_loads [of "loadOutcome ?down ?st" ?r ?w ?down ?st]
    by (simp_all add: loadOutcome_def IssuerMetadata_load_def)
  have u: "fst (initialize (loadOutcome ?up ?st) ?r ?w) = Inr ()"
    using initialize_only_loads [of "loadOutcome ?up ?st" ?r ?w ?up ?st]
    by (simp add: loadOutcome_def IssuerMetadata_load_def)
  have "initialize (loadOutcome ?down ?st) ?r ?w =
      (Inl MetadataLookupFailure, \<lparr> heap = [ClaimsCache (), IssuerMetadata ()], effects = [Call_load 1] \<rparr>)"
    using x y z by (cases "initialize (loadOutcome ?down ?st) ?r ?w") simp
  with u show ?thesis by simp
qed

text \<open>
  Claim C7. For every request on which \<open>authorizeRequestAndGetClaims\<close> succeeds,
  \<open>Router.authorizationHandler\<close> attaches the returned claims to the per-request
  context (\<open>response.locals.claims\<close>) and then calls \<open>next()\<close>: after the call of the
  authorizer the effects are the assignment and the call of \<open>next\<close>, in this order. If
  \<open>authorizeRequestAndGetClaims\<close> fails, the error propagates, the response is as it
  was and \<open>next()\<close> is not called: the call of the authorizer is the only effect.
\<close>

theorem authorizationHandler_attaches:
  "(authorize (fst (createAuthorizer this w)) request (snd (createAuthorizer this w)) = Inr claims \<longrightarrow>
      fst (authorizationHandler authorize this request response w) = Inr () \<and>
      locals_claims (fst (snd (authorizationHandler authorize this request response w))) = Some claims \<and>
      effects (snd (snd (authorizationHandler authorize this request response w))) =
        effects w @ [Call_authorizeRequestAndGetClaims (fst (createAuthorizer this w)) request,
                     Assign_locals_claims claims, Call_next]) \<and>
   (authorize (fst (createAuthorizer this w)) request (snd (createAuthorizer this w)) = Inl e \<longrightarrow>
      fst (authorizationHandler authorize this request response w) = Inl e \<and>
      fst (snd (authorizationHandler authorize this request response w)) = response \<and>
      effects (snd (snd (authorizationHandler authorize this request response w))) =
        effects w @ [Call_authorizeRequestAndGetClaims (fst (createAuthorizer this w)) request])"
proof (cases "authorize (fst (createAuthorizer this w)) request (snd (createAuthorizer this w))")
  case (Inl e')
  then show ?thesis
    by (simp add: authorizationHandler_def perform_def createAuthorizer_eq)
next
  case (Inr claims')
  then show ?thesis
    by (simp add: authorizationHandler_def perform_def createAuthorizer_eq)
qed

text \<open>
  A request whose token the authorizer accepts, and one it rejects with an invalid
  token error.
\<close>

theorem authorizationHandler_attaches_witness:
  "authorizationHandler (\<lambda>a rq w. Inr ''alice'' :: ErrorKind + string)
      \<lparr> apiConfig = \<lparr> oauth = () \<rparr>, claimsCache = 0, issuerMetadata = 1 \<rparr>
      \<lparr> params = Map.empty, headers = [''authorization'' \<mapsto> ''Bearer abc''] \<rparr>
      \<lparr> locals_claims = None \<rparr>
      \<lparr> heap = [ClaimsCache (), IssuerMetadata ()], effects = [] \<rparr> =
    (Inr (), \<lparr> locals_claims = Some ''alice'' \<rparr>,
     \<lparr> heap = [ClaimsCache (), IssuerMetadata (), Authenticator () 1, SampleCustomClaimsProvider,
               Authorizer 0 2 3],
       effects = [Call_authorizeRequestAndGetClaims 4
                    \<lparr> params = Map.empty, headers = [''authorization'' \<mapsto> ''Bearer abc''] \<rparr>,
                  Assign_locals_claims ''alice'', Call_next] \<rparr>) \<and>
   fst (authorizationHandler (\<lambda>a rq w. Inl InvalidToken :: ErrorKind + string)
      \<lparr> apiConfig = \<lparr> oauth = () \<rparr>, claimsCache = 0, issuerMetadata = 1 \<rparr>
      \<lparr> params = Map.empty, headers = Map.empty \<rparr>
      \<lparr> locals_claims = None \<rparr>
      \<lparr> heap = [ClaimsCache (), IssuerMetadata ()], effects = [] \<rparr>) = Inl InvalidToken \<and>
   effects (snd (snd (authorizationHandler (\<lambda>a rq w. Inl InvalidToken :: ErrorKind + string)
      \<lparr> apiConfig = \<lparr> oauth = () \<rparr>, claimsCache = 0, issuerMetadata = 1 \<rparr>
      \<lparr> params = Map.empty, headers = Map.empty \<rparr>
      \<lparr> locals_claims = None \<rparr>
      \<lparr> heap = [ClaimsCache (), IssuerMetadata ()], effects = [] \<rparr>))) =
     [Call_authorizeRequestAndGetClaims 4 \<lparr> params = Map.empty, headers = Map.empty \<rparr>]"
proof -
  let ?r = "\<lparr> apiConfig = \<lparr> oauth = () \<rparr>, claimsCache = 0, issuerMetadata = 1 \<rparr>"
  let ?w = "\<lparr> heap = [ClaimsCache (), IssuerMetadata ()], effects = [] \<rparr> :: (unit, string) world"
  let ?rq = "\<lparr> params = Map.empty, headers = [''authorization'' \<mapsto> ''Bearer abc''] \<rparr>"
  let ?rq' = "\<lparr> params = Map.empty, headers = Map.empty \<rparr>"
  let ?ok = "\<lambda>(a :: addr) (rq :: Request) (w :: (unit, string) world). Inr ''alice'' :: ErrorKind + string"
  let ?ko = "\<lambda>(a :: addr) (rq :: Request) (w :: (unit, string) world). Inl InvalidToken :: ErrorKind + string"
  have h: "heap (snd (snd (authorizationHandler ?ok ?r ?rq \<lparr> locals_claims = None \<rparr> ?w))) =
      [ClaimsCache (), IssuerMetadata (), Authenticator () 1, SampleCustomClaimsProvider, Authorizer 0 2 3]"
    by (simp add: authorizationHandler_heap)
  have ok: "fst (authorizationHandler ?ok ?r ?rq \<lparr> locals_claims = None \<rparr> ?w) = Inr ()"
    "locals_claims (fst (snd (authorizationHandler ?ok ?r ?rq \<lparr> locals_claims = None \<rparr> ?w))) = Some ''alice''"
    "effects (snd (snd (authorizationHandler ?ok ?r ?rq \<lparr> locals_claims = None \<rparr> ?w))) =
       [Call_authorizeRequestAndGetClaims 4 ?rq, Assign_locals_claims ''alice'', Call_next]"
    using authorizationHandler_attaches [of ?ok ?r ?w ?rq "''alice''" "\<lparr> locals_claims = None \<rparr>" InvalidToken]
    by (simp_all add: createAuthorizer_eq)
  have ko: "fst (authorizationHandler ?ko ?r ?rq' \<lparr> locals_claims = None \<rparr> ?w) = Inl InvalidToken"
    "effects (snd (snd (authorizationHandler ?ko ?r ?rq' \<lparr> locals_claims = None \<rparr> ?w))) =
       [Call_authorizeRequestAndGetClaims 4 ?rq']"
    using authorizationHandler_attaches [of ?ko ?r ?w ?rq' "''alice''" "\<lparr> locals_claims = None \<rparr>" InvalidToken]
    by (simp_all add: createAuthorizer_eq)
  have "authorizationHandler ?ok ?r ?rq \<lparr> locals_claims = None \<rparr> ?w =
    (Inr (), \<lparr> locals_claims = Some ''alice'' \<rparr>,
     \<lparr> heap = [ClaimsCache (), IssuerMetadata (), Authenticator () 1, SampleCustomClaimsProvider,
               Authorizer 0 2 3],
       effects = [Call_authorizeRequestAndGetClaims 4 ?rq, Assign_locals_claims ''alice'', Call_next] \<rparr>)"
    using h ok
    by (cases "authorizationHandler ?ok ?r ?rq \<lparr> locals_claims = None \<rparr> ?w") auto
  with ko show ?thesis by simp
qed

text \<open>
  Claim C8. A Router constructs its ClaimsCache and its IssuerMetadata exactly once, in
  its constructor, and every request it handles uses those two instances, while the
  Authenticator, the CustomClaimsProvider and the Authorizer are constructed fresh for
  every request. After the constructor and any number of requests the store holds, in
  addition to what it held before, the one ClaimsCache, the one IssuerMetadata, and
  for the request number \<open>k\<close> three new objects of its own: an Authenticator built from
  the router's IssuerMetadata, a SampleCustomClaimsProvider, and an Authorizer that
  refers to the router's ClaimsCache and to the two objects of that request. No object
  of one request is referred to by another request or by the router, so nothing is
  held in them between calls.
\<close>

theorem instances_shared:
  "claimsCache (fst (new_Router cfg w0)) = length (heap w0) \<and>
   issuerMetadata (fst (new_Router cfg w0)) = length (heap w0) + 1 \<and>
   heap (snd (new_Router cfg w0)) = heap w0 @ [ClaimsCache (oauth cfg), IssuerMetadata (oauth cfg)] \<and>
   heap (serve authorize (fst (new_Router cfg w0)) reqs (snd (new_Router cfg w0))) =
     heap w0 @ [ClaimsCache (oauth cfg), IssuerMetadata (oauth cfg)] @
     concat (map (\<lambda>k. [Authenticator (oauth cfg) (length (heap w0) + 1),
                        SampleCustomClaimsProvider,
                        Authorizer (length (heap w0)) (length (heap w0) + 2 + 3 * k)
                          (length (heap w0) + 2 + 3 * k + 1)]) [0..<length reqs])"
proof -
  have r: "new_Router cfg w0 =
      (\<lparr> apiConfig = cfg, claimsCache = length (heap w0), issuerMetadata = length (heap w0) + 1 \<rparr>,
       w0\<lparr> heap := heap w0 @ [ClaimsCache (oauth cfg), IssuerMetadata (oauth cfg)] \<rparr>)"
    by (simp add: new_Router_def new_def)
  show ?thesis
    unfolding r fst_conv snd_conv serve_heap
    by (simp add: add.assoc)
qed

text \<open>
  A router on an empty store that handles two requests, the first accepted and the
  second rejected.
\<close>

theorem instances_shared_witness:
  "heap (serve (\<lambda>a rq w. if headers rq ''authorization'' = None then Inl InvalidToken else Inr ''alice'')
      (fst (new_Router \<lparr> oauth = ''cfg'' \<rparr> (\<lparr> heap = [], effects = [] \<rparr> :: (string, string) world)))
      [(\<lparr> params = Map.empty, headers = [''authorization'' \<mapsto> ''Bearer abc''] \<rparr>, \<lparr> locals_claims = None \<rparr>),
       (\<lparr> params = Map.empty, headers = Map.empty \<rparr>, \<lparr> locals_claims = None \<rparr>)]
      (snd (new_Router \<lparr> oauth = ''cfg'' \<rparr> (\<lparr> heap = [], effects = [] \<rparr> :: (string, string) world)))) =
     [ClaimsCache ''cfg'', IssuerMetadata ''cfg'',
      Authenticator ''cfg'' 1, SampleCustomClaimsProvider, Authorizer 0 2 3,
      Authenticator ''cfg'' 1, SampleCustomClaimsProvider, Authorizer 0 5 6 :: (string, string) obj]"
  using instances_shared [of "\<lparr> oauth = ''cfg'' \<rparr>" "\<lparr> heap = [], effects = [] \<rparr> :: (string, string) world"
      "\<lambda>a rq w. if headers rq ''authorization'' = None then Inl InvalidToken else Inr ''alice''"
      "[(\<lparr> params = Map.empty, headers = [''authorization'' \<mapsto> ''Bearer abc''] \<rparr>, \<lparr> locals_claims = None \<rparr>),
        (\<lparr> params = Map.empty, headers = Map.empty \<rparr>, \<lparr> locals_claims = None \<rparr>)]"]
  by (simp add: upt_rec eval_nat_numeral)

text \<open>
  Claim C9. \<open>Router.getCompanyTransactions\<close> throws its ClientError with status 400 and
  error code \<open>invalid_company_id\<close> exactly when \<open>parseInt(request.params.id, 10)\<close> is NaN
  or at most 0, and then it throws before calling the company service: the service
  method is not among the effects. Every other id has a positive \<open>parseInt\<close> value; it is
  accepted, the service is called with that value, and the handler ends as the service
  does. An id such as \<open>3.5\<close> is accepted and passed on as 3.
\<close>

theorem getCompanyTransactions_validates:
  "(isNaN (parseInt (params_id request) 10) \<or> le (parseInt (params_id request) 10) (Num 0) \<longrightarrow>
      fst (getCompanyTransactions svc this request response w) =
        Inl (ClientError_thrown (new_ClientError (Num 400) ''invalid_company_id''
               ''The company id must be a positive numeric integer'')) \<and>
      effects (snd (getCompanyTransactions svc this request response w)) = effects w) \<and>
   (\<not> (isNaN (parseInt (params_id request) 10) \<or> le (parseInt (params_id request) 10) (Num 0)) \<longrightarrow>
      (\<exists>m. parseInt (params_id request) 10 = Num m \<and> 0 < m) \<and>
      effects (snd (getCompanyTransactions svc this request response w)) =
        effects w @
          Call_getCompanyTransactions (fst (createCompanyService response w))
            (parseInt (params_id request) 10) #
          (case svc (fst (createCompanyService response w)) (parseInt (params_id request) 10)
                  (snd (createCompanyService response w)) of
             Inl e \<Rightarrow> []
           | Inr result \<Rightarrow> [Call_writeObjectResponse (Num 200) result]) \<and>
      fst (getCompanyTransactions svc this request response w) =
        (case svc (fst (createCompanyService response w)) (parseInt (params_id request) 10)
                (snd (createCompanyService response w)) of
           Inl e \<Rightarrow> Inl e
         | Inr result \<Rightarrow> Inr ()))"
proof (cases "parseInt (params_id request) 10")
  case NaN
  then show ?thesis
    by (simp add: getCompanyTransactions_def createCompanyService_eq invalidCompanyId_def)
next
  case (Num m)
  then show ?thesis
    by (simp add: getCompanyTransactions_def createCompanyService_eq perform_def
          invalidCompanyId_def Let_def split: sum.splits)
qed

text \<open>
  The id \<open>abc\<close> is refused before the service is called; the id \<open>3.5\<close> is accepted and
  the service is called with 3.
\<close>

theorem getCompanyTransactions_validates_witness:
  "getCompanyTransactions (\<lambda>a n w. Inr (JObj []) :: unit thrown + jsvalue)
          \<lparr> apiConfig = \<lparr> oauth = () \<rparr>, claimsCache = 0, issuerMetadata = 1 \<rparr>
          \<lparr> params = [''id'' \<mapsto> ''abc''], headers = Map.empty \<rparr>
          \<lparr> locals_claims = Some () \<rparr>
          \<lparr> heap = [ClaimsCache (), IssuerMetadata ()], effects = [] \<rparr> =
     (Inl (ClientError_thrown (new_ClientError (Num 400) ''invalid_company_id''
               ''The company id must be a positive numeric integer'')),
      \<lparr> heap = [ClaimsCache (), IssuerMetadata (), JsonFileReader, CompanyRepository 2,
                CompanyService 3 (Some ())], effects = [] \<rparr>) \<and>
   parseInt ''3.5'' 10 = Num 3 \<and>
   fst (getCompanyTransactions (\<lambda>a n w. Inr (JObj []) :: unit thrown + jsvalue)
          \<lparr> apiConfig = \<lparr> oauth = () \<rparr>, claimsCache = 0, issuerMetadata = 1 \<rparr>
          \<lparr> params = [''id'' \<mapsto> ''3.5''], headers = Map.empty \<rparr>
          \<lparr> locals_claims = Some () \<rparr>
          \<lparr> heap = [ClaimsCache (), IssuerMetadata ()], effects = [] \<rparr>) = Inr () \<and>
   effects (snd (getCompanyTransactions (\<lambda>a n w. Inr (JObj []) :: unit thrown + jsvalue)
          \<lparr> apiConfig = \<lparr> oauth = () \<rparr>, claimsCache = 0, issuerMetadata = 1 \<rparr>
          \<lparr> params = [''id'' \<mapsto> ''3.5''], headers = Map.empty \<rparr>
          \<lparr> locals_claims = Some () \<rparr>
          \<lparr> heap = [ClaimsCache (), IssuerMetadata ()], effects = [] \<rparr>)) =
     [Call_getCompanyTransactions 4 (Num 3), Call_writeObjectResponse (Num 200) (JObj [])]"
proof -
  let ?svc = "\<lambda>(a :: addr) (n :: number) (w :: (unit, unit) world). Inr (JObj []) :: unit thrown + jsvalue"
  let ?r = "\<lparr> apiConfig = \<lparr> oauth = () \<rparr>, claimsCache = 0, issuerMetadata = 1 \<rparr>"
  let ?w = "\<lparr> heap = [ClaimsCache (), IssuerMetadata ()], effects = [] \<rparr> :: (unit, unit) world"
  let ?bad = "\<lparr> params = [''id'' \<mapsto> ''abc''], headers = Map.empty \<rparr>"
  let ?good = "\<lparr> params = [''id'' \<mapsto> ''3.5''], headers = Map.empty \<rparr>"
  have bad: "parseInt ''abc'' 10 = NaN"
    by (simp add: parseInt_def isWhiteSpace_def isRadixDigit_def digitOf_def mathInt_def hasHexPrefix_def)
  have good: "parseInt ''3.5'' 10 = Num 3"
    by (simp add: parseInt_def isWhiteSpace_def isRadixDigit_def digitOf_def mathInt_def hasHexPrefix_def)
  have hp: "heap (snd (getCompanyTransactions ?svc ?r ?bad \<lparr> locals_claims = Some () \<rparr> ?w)) =
      [ClaimsCache (), IssuerMetadata (), JsonFileReader, CompanyRepository 2, CompanyService 3 (Some ())]"
    by (simp add: getCompanyTransactions_def createCompanyService_eq params_id_def bad)
  have b: "fst (getCompanyTransactions ?svc ?r ?bad \<lparr> locals_claims = Some () \<rparr> ?w) =
        Inl (ClientError_thrown (new_ClientError (Num 400) ''invalid_company_id''
               ''The company id must be a positive numeric integer''))"
    "effects (snd (getCompanyTransactions ?svc ?r ?bad \<lparr> locals_claims = Some () \<rparr> ?w)) = []"
    using getCompanyTransactions_validates [of ?bad ?svc ?r "\<lparr> locals_claims = Some () \<rparr>" ?w]
    by (simp_all add: params_id_def bad)
  have g: "fst (getCompanyTransactions ?svc ?r ?good \<lparr> locals_claims = Some () \<rparr> ?w) = Inr ()"
    "effects (snd (getCompanyTransactions ?svc ?r ?good \<lparr> locals_claims = Some () \<rparr> ?w)) =
       [Call_getCompanyTransactions 4 (Num 3), Call_writeObjectResponse (Num 200) (JObj [])]"
    using getCompanyTransactions_validates [of ?good ?svc ?r "\<lparr> locals_claims = Some () \<rparr>" ?w]
    by (simp_all add: params_id_def good createCompanyService_eq)
  have "getCompanyTransactions ?svc ?r ?bad \<lparr> locals_claims = Some () \<rparr> ?w =
     (Inl (ClientError_thrown (new_ClientError (Num 400) ''invalid_company_id''
               ''The company id must be a positive numeric integer'')),
      \<lparr> heap = [ClaimsCache (), IssuerMetadata (), JsonFileReader, CompanyRepository 2,
                CompanyService 3 (Some ())], effects = [] \<rparr>)"
    using b hp
    by (cases "getCompanyTransactions ?svc ?r ?bad \<lparr> locals_claims = Some () \<rparr> ?w") auto
  with g good show ?thesis by simp
qed

section \<open>Properties of IssuerMetadata\<close>

text \<open>
  Claim C4. For every call of \<open>IssuerMetadata.getSigningKey\<close> with a key id absent from
  the current signing-key set, exactly one refresh of the key set is performed and the
  lookup is retried exactly once: the steps of the call are a lookup, a refresh and a
  lookup. The call returns the key if the refreshed set has it; if the key is still
  absent it fails with SigningKeyDownloadFailure (status 500, error code
  \<open>signing_key_download\<close>). A key id that is present is returned without a refresh.
\<close>

theorem getSigningKey_one_refresh:
  "(find (\<lambda>key. keyId key = kid) (signingKeySet md) = None \<longrightarrow>
      steps (snd (getSigningKey fetched kid md)) = steps md @ [Lookup kid, Refresh, Lookup kid] \<and>
      signingKeySet (snd (getSigningKey fetched kid md)) =
        (case fetched of None \<Rightarrow> signingKeySet md | Some ks \<Rightarrow> ks) \<and>
      fst (getSigningKey fetched kid md) =
        (case find (\<lambda>key. keyId key = kid)
                (case fetched of None \<Rightarrow> signingKeySet md | Some ks \<Rightarrow> ks) of
           Some key \<Rightarrow> Inr key
         | None \<Rightarrow> Inl SigningKeyDownloadFailure) \<and>
      errorCodeOf SigningKeyDownloadFailure = Some ''signing_key_download'' \<and>
      httpStatus SigningKeyDownloadFailure = 500) \<and>
   (find (\<lambda>key. keyId key = kid) (signingKeySet md) = Some key \<longrightarrow>
      getSigningKey fetched kid md = (Inr key, md\<lparr> steps := steps md @ [Lookup kid] \<rparr>))"
proof (cases "find (\<lambda>key. keyId key = kid) (signingKeySet md)")
  case None
  then show ?thesis
    by (cases fetched)
       (simp_all add: getSigningKey_def lookupKey_def refresh_def signingKeyDownloadFailure_def
          split: option.splits)
next
  case (Some key')
  then show ?thesis
    by (simp add: getSigningKey_def lookupKey_def)
qed

text \<open>
  A key set holding the key \<open>k1\<close> only, asked for \<open>k2\<close>: the refresh brings a set without
  \<open>k2\<close> and the call fails; the refresh brings the rotated set and the call returns the
  new key.
\<close>

theorem getSigningKey_one_refresh_witness:
  "getSigningKey (Some [\<lparr> keyId = ''k1'', publicKey = ''pk1'', algorithm = ''RS256'' \<rparr>]) ''k2''
      \<lparr> issuerConfig = None,
        signingKeySet = [\<lparr> keyId = ''k1'', publicKey = ''pk1'', algorithm = ''RS256'' \<rparr>],
        steps = [] \<rparr> =
     (Inl SigningKeyDownloadFailure,
      \<lparr> issuerConfig = None,
        signingKeySet = [\<lparr> keyId = ''k1'', publicKey = ''pk1'', algorithm = ''RS256'' \<rparr>],
        steps = [Lookup ''k2'', Refresh, Lookup ''k2''] \<rparr>) \<and>
   fst (getSigningKey (Some [\<lparr> keyId = ''k2'', publicKey = ''pk2'', algorithm = ''RS256'' \<rparr>]) ''k2''
      \<lparr> issuerConfig = None,
        signingKeySet = [\<lparr> keyId = ''k1'', publicKey = ''pk1'', algorithm = ''RS256'' \<rparr>],
        steps = [] \<rparr>) =
     Inr \<lparr> keyId = ''k2'', publicKey = ''pk2'', algorithm = ''RS256'' \<rparr>"
proof -
  let ?k1 = "\<lparr> keyId = ''k1'', publicKey = ''pk1'', algorithm = ''RS256'' \<rparr>"
  let ?k2 = "\<lparr> keyId = ''k2'', publicKey = ''pk2'', algorithm = ''RS256'' \<rparr>"
  let ?md = "\<lparr> issuerConfig = None, signingKeySet = [?k1], steps = [] \<rparr>"
  have a: "steps (snd (getSigningKey (Some [?k1]) ''k2'' ?md)) = [Lookup ''k2'', Refresh, Lookup ''k2'']"
    "signingKeySet (snd (getSigningKey (Some [?k1]) ''k2'' ?md)) = [?k1]"
    "fst (getSigningKey (Some [?k1]) ''k2'' ?md) = Inl SigningKeyDownloadFailure"
    using getSigningKey_one_refresh [of "''k2''" ?md "Some [?k1]" ?k1] by simp_all
  have c: "issuerConfig (snd (getSigningKey (Some [?k1]) ''k2'' ?md)) = None"
    by (simp add: getSigningKey_def lookupKey_def refresh_def)
  have b: "fst (getSigningKey (Some [?k2]) ''k2'' ?md) = Inr ?k2"
    using getSigningKey_one_refresh [of "''k2''" ?md "Some [?k2]" ?k1] by simp
  have "getSigningKey (Some [?k1]) ''k2'' ?md =
     (Inl SigningKeyDownloadFailure,
      \<lparr> issuerConfig = None, signingKeySet = [?k1], steps = [Lookup ''k2'', Refresh, Lookup ''k2''] \<rparr>)"
    using a c by (cases "getSigningKey (Some [?k1]) ''k2'' ?md") auto
  with b show ?thesis by simp
qed

section \<open>Properties of ClaimsCache\<close>

lemma run_Cons: "run s (e # es) = run (step s e) es"
  by (simp add: run_def)

lemma run_append: "run s (es @ es') = run (run s es) es'"
  by (simp add: run_def)

text \<open>An event for another key changes nothing of what the cache holds for a key.\<close>

lemma step_other_key:
  "keyOf e \<noteq> k \<Longrightarrow> view k (step s e) = view k s"
  by (cases e)
     (auto simp add: view_def getOrCompute_def computeSettled_def startComputation_def forKey_def
        split: option.splits slot.splits sum.splits)

text \<open>What an event for a key does to the key depends on nothing but the key.\<close>

lemma step_same_key:
  "keyOf e = k \<Longrightarrow> view k s = view k s' \<Longrightarrow> view k (step s e) = view k (step s' e)"
  by (cases e)
     (auto simp add: view_def getOrCompute_def computeSettled_def startComputation_def forKey_def
        split: option.splits slot.splits sum.splits)

lemma run_view:
  "view k s = view k s' \<Longrightarrow> view k (run s es) = view k (run s' (filter (\<lambda>e. keyOf e = k) es))"
proof (induction es arbitrary: s s')
  case Nil
  then show ?case by (simp add: run_def)
next
  case (Cons e es)
  show ?case
  proof (cases "keyOf e = k")
    case True
    have "view k (step s e) = view k (step s' e)"
      using True Cons.prems by (rule step_same_key)
    from Cons.IH [OF this] True show ?thesis by (simp add: run_Cons)
  next
    case False
    have "view k (step s e) = view k s'"
      using step_other_key [OF False, of s] Cons.prems by simp
    from Cons.IH [OF this] False show ?thesis by (simp add: run_Cons)
  qed
qed

lemma first_call:
  "noLiveEntry s k t0 \<Longrightarrow>
     getOrCompute c0 k t0 s =
       s\<lparr> slots := (slots s)(k \<mapsto> InFlight [c0]), computations := computations s @ [k] \<rparr>"
  by (auto simp add: noLiveEntry_def getOrCompute_def startComputation_def
        split: option.splits slot.splits)

lemma later_calls:
  "slots s k = Some (InFlight cs) \<Longrightarrow>
     run s (callsOf k cts) = s\<lparr> slots := (slots s)(k \<mapsto> InFlight (cs @ map fst cts)) \<rparr>"
proof (induction cts arbitrary: s cs)
  case Nil
  then have "(slots s)(k \<mapsto> InFlight cs) = slots s" by (simp add: fun_upd_idem)
  then show ?case by (simp add: run_def callsOf_def)
next
  case (Cons ct cts)
  let ?s1 = "s\<lparr> slots := (slots s)(k \<mapsto> InFlight (cs @ [fst ct])) \<rparr>"
  have s1: "getOrCompute (fst ct) k (snd ct) s = ?s1"
    using Cons.prems by (simp add: getOrCompute_def)
  have "slots ?s1 k = Some (InFlight (cs @ [fst ct]))" by simp
  from Cons.IH [OF this]
  have "run ?s1 (callsOf k cts) =
      ?s1\<lparr> slots := (slots ?s1)(k \<mapsto> InFlight ((cs @ [fst ct]) @ map fst cts)) \<rparr>" .
  also have "\<dots> = s\<lparr> slots := (slots s)(k \<mapsto> InFlight (cs @ map fst (ct # cts))) \<rparr>"
    by simp
  finally have ih: "run ?s1 (callsOf k cts) =
      s\<lparr> slots := (slots s)(k \<mapsto> InFlight (cs @ map fst (ct # cts))) \<rparr>" .
  have "run s (callsOf k (ct # cts)) = run (getOrCompute (fst ct) k (snd ct) s) (callsOf k cts)"
    by (simp add: callsOf_def run_Cons)
  then show ?case
    unfolding s1 ih .
qed

text \<open>
  The calls for one key alone: the first starts the computation, the later ones wait,
  and the settling serves them all.
\<close>

lemma single_flight:
  assumes "noLiveEntry s k t0"
  shows "run s (callsOf k ((c0, t0) # cts) @ [Settled k r]) =
           (case r of
              Inr p \<Rightarrow>
                s\<lparr> slots := (slots s)(k \<mapsto> Completed \<lparr> principal = p, expiresAt = expiry (base p) \<rparr>),
                   computations := computations s @ [k],
                   returned := returned s @ map (\<lambda>c. (c, k, Inr p)) (c0 # map fst cts) \<rparr>
            | Inl err \<Rightarrow>
                s\<lparr> slots := (slots s)(k := None),
                   computations := computations s @ [k],
                   returned := returned s @ map (\<lambda>c. (c, k, Inl err)) (c0 # map fst cts) \<rparr>)"
proof -
  let ?s1 = "s\<lparr> slots := (slots s)(k \<mapsto> InFlight [c0]), computations := computations s @ [k] \<rparr>"
  have a: "getOrCompute c0 k t0 s = ?s1" using assms by (rule first_call)
  have "slots ?s1 k = Some (InFlight [c0])" by simp
  from later_calls [OF this, of cts]
  have b: "run ?s1 (callsOf k cts) =
      s\<lparr> slots := (slots s)(k \<mapsto> InFlight (c0 # map fst cts)), computations := computations s @ [k] \<rparr>"
    by simp
  have c: "run s (callsOf k ((c0, t0) # cts)) =
      s\<lparr> slots := (slots s)(k \<mapsto> InFlight (c0 # map fst cts)), computations := computations s @ [k] \<rparr>"
    using a b by (simp add: callsOf_def run_Cons)
  show ?thesis
    unfolding run_append c
    by (cases r) (simp_all add: run_def computeSettled_def)
qed

lemma single_flight_view:
  assumes "filter (\<lambda>e. keyOf e = k) es = callsOf k ((c0, t0) # cts)"
  shows "view k (run s (es @ [Settled k r])) =
         view k (run s (callsOf k ((c0, t0) # cts) @ [Settled k r]))"
  using run_view [of k s s "es @ [Settled k r]"] assms by simp

lemma step_entriesExpireWithToken:
  "entriesExpireWithToken s \<Longrightarrow> entriesExpireWithToken (step s ev)"
  by (cases ev)
     (auto simp add: entriesExpireWithToken_def getOrCompute_def computeSettled_def
        startComputation_def split: option.splits slot.splits sum.splits if_splits)

lemma run_entriesExpireWithToken:
  "entriesExpireWithToken s \<Longrightarrow> entriesExpireWithToken (run s es)"
  by (induction es arbitrary: s) (simp_all add: run_def step_entriesExpireWithToken)

lemma reachable_entriesExpireWithToken: "entriesExpireWithToken (run emptyCache es)"
  by (rule run_entriesExpireWithToken) (simp add: entriesExpireWithToken_def emptyCache_def)

text \<open>
  Claim C1. For every set of N concurrent calls of \<open>ClaimsCache.getOrCompute\<close> with the
  same token key while no live cache entry exists, the compute function executes
  exactly once, and all N calls return the identical value. The cache is in any state
  with no live entry for the key at the time of the first call; the events \<open>es\<close> are
  any interleaving of the N calls for the key (the first by \<open>c0\<close> at \<open>t0\<close>, the others
  by the callers and at the times of \<open>cts\<close>) with any events for other keys; then the
  computation settles with \<open>r\<close>. One computation was started for the key, and the
  calls for the key that completed are the N calls, in the order they arrived, each
  with the result \<open>r\<close>.
\<close>

theorem getOrCompute_single_flight:
  assumes "filter (\<lambda>e. keyOf e = k) es = callsOf k ((c0, t0) # cts)" and "noLiveEntry s k t0"
  shows "count_list (computations (run s (es @ [Settled k r]))) k = count_list (computations s) k + 1 \<and>
         forKey k (returned (run s (es @ [Settled k r]))) =
           forKey k (returned s) @ map (\<lambda>c. (c, k, r)) (c0 # map fst cts)"
proof -
  have v: "view k (run s (es @ [Settled k r])) =
           view k (run s (callsOf k ((c0, t0) # cts) @ [Settled k r]))"
    using assms(1) by (rule single_flight_view)
  show ?thesis
    using v unfolding single_flight [OF assms(2)]
    by (cases r) (simp_all add: view_def forKey_def)
qed

text \<open>
  Three calls for the key \<open>a\<close> on an empty cache, interleaved with a call for the key
  \<open>b\<close>: one computation, and the three callers return the same principal.
\<close>

theorem getOrCompute_single_flight_witness:
  "count_list (computations (run (emptyCache :: unit ClaimsCacheState)
      ([Called 11 ''a'' 0, Called 7 ''b'' 0, Called 12 ''a'' 1, Called 13 ''a'' 2] @
       [Settled ''a'' (Inr samplePrincipal)]))) ''a'' = 1 \<and>
   forKey ''a'' (returned (run (emptyCache :: unit ClaimsCacheState)
      ([Called 11 ''a'' 0, Called 7 ''b'' 0, Called 12 ''a'' 1, Called 13 ''a'' 2] @
       [Settled ''a'' (Inr samplePrincipal)]))) =
     [(11, ''a'', Inr samplePrincipal), (12, ''a'', Inr samplePrincipal),
      (13, ''a'', Inr samplePrincipal)]"
proof -
  have h1: "filter (\<lambda>e. keyOf e = ''a'')
      [Called 11 ''a'' 0, Called 7 ''b'' 0, Called 12 ''a'' 1, Called 13 ''a'' 2 :: unit event] =
      callsOf ''a'' ((11, 0) # [(12, 1), (13, 2)])"
    by (simp add: callsOf_def)
  have h2: "noLiveEntry (emptyCache :: unit ClaimsCacheState) ''a'' 0"
    by (simp add: noLiveEntry_def emptyCache_def)
  have e: "computations (emptyCache :: unit ClaimsCacheState) = []"
    "returned (emptyCache :: unit ClaimsCacheState) = []"
    by (simp_all add: emptyCache_def)
  show ?thesis
    using getOrCompute_single_flight [OF h1 h2, of "Inr samplePrincipal"]
    by (simp add: e forKey_def)
qed

text \<open>
  Claim C2. For every token and every time \<open>now\<close> after the expiry of the token,
  \<open>ClaimsCache.getOrCompute\<close> never returns a previously stored cache entry for it.
  In every state the cache can reach, an entry stored for a key expires no later than
  the token of its principal; a call for the key at such a time returns nothing from
  the cache, removes the expired entry (the slot holds the new computation, with the
  caller as its only waiter) and invokes the compute function; what the call returns
  is the result of that computation.
\<close>

theorem expired_entry_recomputed:
  assumes "slots (run emptyCache es) k = Some (Completed e)"
    and "now > expiry (base (principal e))"
  shows "expiresAt e \<le> expiry (base (principal e)) \<and>
         returned (getOrCompute c k now (run emptyCache es)) = returned (run emptyCache es) \<and>
         slots (getOrCompute c k now (run emptyCache es)) k = Some (InFlight [c]) \<and>
         computations (getOrCompute c k now (run emptyCache es)) =
           computations (run emptyCache es) @ [k] \<and>
         returned (computeSettled k r (getOrCompute c k now (run emptyCache es))) =
           returned (run emptyCache es) @ [(c, k, r)]"
proof -
  let ?s = "run emptyCache es"
  have ex: "expiresAt e = expiry (base (principal e))"
    using reachable_entriesExpireWithToken [of es] assms(1)
    by (simp add: entriesExpireWithToken_def)
  with assms(2) have "now > expiresAt e" by simp
  with assms(1) have "noLiveEntry ?s k now" by (simp add: noLiveEntry_def)
  then have g: "getOrCompute c k now ?s =
      ?s\<lparr> slots := (slots ?s)(k \<mapsto> InFlight [c]), computations := computations ?s @ [k] \<rparr>"
    by (rule first_call)
  show ?thesis
    unfolding g using ex by (cases r) (simp_all add: computeSettled_def)
qed

text \<open>
  A token that expires at time 10 is cached by a first call; a call at time 11 returns
  nothing from the cache and starts a second computation.
\<close>

theorem expired_entry_recomputed_witness:
  "slots (run emptyCache [Called 21 ''t'' 0, Settled ''t'' (Inr samplePrincipal)]) ''t'' =
     Some (Completed \<lparr> principal = samplePrincipal, expiresAt = 10 \<rparr>) \<and>
   (11 :: int) > expiry (base samplePrincipal) \<and>
   returned (getOrCompute 22 ''t'' 11
      (run emptyCache [Called 21 ''t'' 0, Settled ''t'' (Inr samplePrincipal)])) =
     [(21, ''t'', Inr samplePrincipal)] \<and>
   computations (getOrCompute 22 ''t'' 11
      (run emptyCache [Called 21 ''t'' 0, Settled ''t'' (Inr samplePrincipal)])) =
     [''t'', ''t'']"
proof -
  have s: "run emptyCache [Called 21 ''t'' 0, Settled ''t'' (Inr samplePrincipal)] =
     \<lparr> slots = [''t'' \<mapsto> Completed \<lparr> principal = samplePrincipal, expiresAt = 10 \<rparr>],
       computations = [''t''], returned = [(21, ''t'', Inr samplePrincipal)] \<rparr>"
    by (simp add: run_def emptyCache_def getOrCompute_def startComputation_def computeSettled_def
          samplePrincipal_def)
  have h1: "slots (run emptyCache [Called 21 ''t'' 0, Settled ''t'' (Inr samplePrincipal)]) ''t'' =
     Some (Completed \<lparr> principal = samplePrincipal, expiresAt = 10 \<rparr>)"
    by (simp add: s)
  have h2: "(11 :: int) > expiry (base (principal \<lparr> principal = samplePrincipal, expiresAt = 10 \<rparr>))"
    by (simp add: samplePrincipal_def)
  show ?thesis
    using expired_entry_recomputed [OF h1 h2, of 22 "Inr samplePrincipal"] h1 h2
    by (simp add: s)
qed

text \<open>
  Claim C3. For every token key whose computation fails, the cache stores no entry for
  that key, the error is propagated to all waiters, and the next call with the same
  key invokes the compute function again from scratch. From any state with no live
  entry for the key, after any interleaving \<open>es\<close> of the calls for the key with events
  for other keys and the failure \<open>err\<close> of the computation: the key has no slot; the
  calls for the key that completed are the waiting calls, each with the error; and a
  further call \<open>c'\<close> returns nothing from the cache, becomes the only waiter of a new
  computation, and brings the computations started for the key to two. As before the
  calls, the key has no live entry, at whatever time it is looked up.
\<close>

theorem failure_not_cached:
  assumes "filter (\<lambda>e. keyOf e = k) es = callsOf k ((c0, t0) # cts)" and "noLiveEntry s k t0"
  shows "slots (run s (es @ [Settled k (Inl err)])) k = None \<and>
         noLiveEntry (run s (es @ [Settled k (Inl err)])) k t \<and>
         forKey k (returned (run s (es @ [Settled k (Inl err)]))) =
           forKey k (returned s) @ map (\<lambda>c. (c, k, Inl err)) (c0 # map fst cts) \<and>
         slots (getOrCompute c' k t' (run s (es @ [Settled k (Inl err)]))) k = Some (InFlight [c']) \<and>
         count_list (computations (getOrCompute c' k t' (run s (es @ [Settled k (Inl err)])))) k =
           count_list (computations s) k + 2 \<and>
         returned (getOrCompute c' k t' (run s (es @ [Settled k (Inl err)]))) =
           returned (run s (es @ [Settled k (Inl err)]))"
proof -
  let ?s' = "run s (es @ [Settled k (Inl err)])"
  have v: "view k ?s' = view k (run s (callsOf k ((c0, t0) # cts) @ [Settled k (Inl err)]))"
    using assms(1) by (rule single_flight_view)
  have none: "slots ?s' k = None"
    and cnt: "count_list (computations ?s') k = count_list (computations s) k + 1"
    and ret: "forKey k (returned ?s') =
           forKey k (returned s) @ map (\<lambda>c. (c, k, Inl err)) (c0 # map fst cts)"
    using v unfolding single_flight [OF assms(2)]
    by (simp_all add: view_def forKey_def)
  have retry: "getOrCompute c' k t' ?s' = startComputation c' k ?s'"
    using none by (simp add: getOrCompute_def)
  show ?thesis
    unfolding retry using none cnt ret by (simp add: startComputation_def noLiveEntry_def)
qed

text \<open>
  Two calls for the key \<open>a\<close> whose computation fails with a claims failure: both get the
  error, nothing is stored, and a third call computes again.
\<close>

theorem failure_not_cached_witness:
  "slots (run (emptyCache :: unit ClaimsCacheState)
      ([Called 11 ''a'' 0, Called 7 ''b'' 0, Called 12 ''a'' 1] @ [Settled ''a'' (Inl ClaimsFailure)])) ''a'' = None \<and>
   forKey ''a'' (returned (run (emptyCache :: unit ClaimsCacheState)
      ([Called 11 ''a'' 0, Called 7 ''b'' 0, Called 12 ''a'' 1] @ [Settled ''a'' (Inl ClaimsFailure)]))) =
     [(11, ''a'', Inl ClaimsFailure), (12, ''a'', Inl ClaimsFailure)] \<and>
   count_list (computations (getOrCompute 13 ''a'' 5 (run (emptyCache :: unit ClaimsCacheState)
      ([Called 11 ''a'' 0, Called 7 ''b'' 0, Called 12 ''a'' 1] @ [Settled ''a'' (Inl ClaimsFailure)])))) ''a'' = 2"
proof -
  have h1: "filter (\<lambda>e. keyOf e = ''a'')
      [Called 11 ''a'' 0, Called 7 ''b'' 0, Called 12 ''a'' 1 :: unit event] =
      callsOf ''a'' ((11, 0) # [(12, 1)])"
    by (simp add: callsOf_def)
  have h2: "noLiveEntry (emptyCache :: unit ClaimsCacheState) ''a'' 0"
    by (simp add: noLiveEntry_def emptyCache_def)
  have e: "computations (emptyCache :: unit ClaimsCacheState) = []"
    "returned (emptyCache :: unit ClaimsCacheState) = []"
    by (simp_all add: emptyCache_def)
  show ?thesis
    using failure_not_cached [OF h1 h2, of ClaimsFailure 0 13 5]
    by (simp add: e forKey_def)
qed

end
